theory Spec2Isabelle
  imports Main "HOL-Library.Word"
begin

unbundle bit_operations_syntax

section \<open>Data model\<close>

text \<open>
  The component is \<^verbatim>\<open>src/core_affinity.c\<close>: two C functions,
  \<^verbatim>\<open>moonbit_get_affinity_mask\<close> (the spec's \<^verbatim>\<open>query_affinity\<close>) and
  \<^verbatim>\<open>moonbit_set_affinity_mask\<close> (the spec's \<^verbatim>\<open>bind_affinity\<close>), each written four
  times under \<^verbatim>\<open>#ifdef _WIN32 / #elif defined(__linux__) / #elif defined(__APPLE__) / #else\<close>.

  The affinity mask is a \<^verbatim>\<open>uint64_t\<close>. Return codes of OS calls are C \<^verbatim>\<open>int\<close>s. The loop
  counters \<^verbatim>\<open>int i\<close> only take the values 0..64 and are natural numbers here.

  The operating system is not part of the repository. Every OS call the code makes is a
  parameter of the model: a function on an explicit OS state \<open>'s\<close>. A call that only
  reads returns its reply; a call that may change the calling thread's scheduling returns
  its reply and the new state.
\<close>

type_synonym uint64_t = "64 word"

text \<open>
  \<^verbatim>\<open>cpu_set_t\<close> and the macros \<^verbatim>\<open>CPU_ZERO\<close>, \<^verbatim>\<open>CPU_SET\<close>, \<^verbatim>\<open>CPU_ISSET\<close>, \<^verbatim>\<open>CPU_SETSIZE\<close> come from
  \<^verbatim>\<open><sched.h>\<close>, which is not under src/. A \<^verbatim>\<open>cpu_set_t\<close> is a bit array of
  \<^verbatim>\<open>CPU_SETSIZE\<close> bits, modelled as the set of the indices whose bit is 1; the macros act
  on indices below \<^verbatim>\<open>CPU_SETSIZE\<close> only (glibc evaluates them to 0, without touching the
  array, for any other index). \<^verbatim>\<open>CPU_SETSIZE\<close> itself is a parameter.
\<close>

type_synonym cpu_set_t = "nat set"

definition CPU_ZERO :: "cpu_set_t" where
  "CPU_ZERO = {}"

definition CPU_SET :: "nat \<Rightarrow> nat \<Rightarrow> cpu_set_t \<Rightarrow> cpu_set_t" where
  "CPU_SET setsize cpu cpus = (if cpu < setsize then insert cpu cpus else cpus)"

definition CPU_ISSET :: "nat \<Rightarrow> nat \<Rightarrow> cpu_set_t \<Rightarrow> bool" where
  "CPU_ISSET setsize cpu cpus = (cpu < setsize \<and> cpu \<in> cpus)"

section \<open>Linux backend\<close>

text \<open>
  The two system calls of the Linux backend, both made with pid 0 (the calling thread)
  and \<^verbatim>\<open>sizeof(cpu_set_t)\<close>:
  \<^item> \<^verbatim>\<open>sched_getaffinity\<close> returns its return code and the set it wrote;
  \<^item> \<^verbatim>\<open>sched_setaffinity\<close> takes the set and returns its return code and the new state.
\<close>

record 's linux_sys =
  CPU_SETSIZE :: nat
  sched_getaffinity :: "'s \<Rightarrow> int \<times> cpu_set_t"
  sched_setaffinity :: "cpu_set_t \<Rightarrow> 's \<Rightarrow> int \<times> 's"

text \<open>
  \<^verbatim>\<open>for (int i = 0; i < 64 && i < CPU_SETSIZE; i++)
    if (CPU_ISSET(i, &mask)) result |= (1ULL << i);\<close>
\<close>

function get_loop_linux :: "nat \<Rightarrow> cpu_set_t \<Rightarrow> nat \<Rightarrow> uint64_t \<Rightarrow> uint64_t" where
  "get_loop_linux setsize cpus i result =
     (if i < 64 \<and> i < setsize
      then get_loop_linux setsize cpus (i + 1)
             (if CPU_ISSET setsize i cpus then result OR push_bit i 1 else result)
      else result)"
  by pat_completeness auto
termination
  by (relation "measure (\<lambda>(setsize, cpus, i, result). 64 - i)") auto

declare get_loop_linux.simps [simp del]

definition moonbit_get_affinity_mask_linux :: "'s linux_sys \<Rightarrow> 's \<Rightarrow> uint64_t" where
  "moonbit_get_affinity_mask_linux sys s =
     (case sched_getaffinity sys s of
        (rc, cpus) \<Rightarrow> if rc = 0 then get_loop_linux (CPU_SETSIZE sys) cpus 0 0 else 0)"

text \<open>
  \<^verbatim>\<open>for (int i = 0; i < 64; i++)
    if ((mask_val >> i) & 1) CPU_SET(i, &mask);\<close>
\<close>

function set_loop_linux :: "nat \<Rightarrow> uint64_t \<Rightarrow> nat \<Rightarrow> cpu_set_t \<Rightarrow> cpu_set_t" where
  "set_loop_linux setsize mask_val i cpus =
     (if i < 64
      then set_loop_linux setsize mask_val (i + 1)
             (if drop_bit i mask_val AND 1 \<noteq> 0 then CPU_SET setsize i cpus else cpus)
      else cpus)"
  by pat_completeness auto
termination
  by (relation "measure (\<lambda>(setsize, mask_val, i, cpus). 64 - i)") auto

declare set_loop_linux.simps [simp del]

definition moonbit_set_affinity_mask_linux :: "'s linux_sys \<Rightarrow> uint64_t \<Rightarrow> 's \<Rightarrow> bool \<times> 's" where
  "moonbit_set_affinity_mask_linux sys mask_val s =
     (case sched_setaffinity sys (set_loop_linux (CPU_SETSIZE sys) mask_val 0 CPU_ZERO) s of
        (rc, s') \<Rightarrow> (rc = 0, s'))"

section \<open>Windows backend\<close>

text \<open>
  \<^verbatim>\<open>DWORD_PTR\<close> comes from \<^verbatim>\<open><windows.h>\<close>: an unsigned integer as wide as a pointer (64 bits
  on Win64, 32 on Win32). Its width \<open>ptr_bits\<close> is a parameter, and a \<^verbatim>\<open>DWORD_PTR\<close> value is a
  64-bit word below \<open>2 ^ ptr_bits\<close>; both casts of the source keep the low \<open>ptr_bits\<close> bits.

  \<^item> \<^verbatim>\<open>GetProcessAffinityMask(GetCurrentProcess(), &p, &s)\<close> returns its \<^verbatim>\<open>BOOL\<close> and the two
    masks it wrote;
  \<^item> \<^verbatim>\<open>SetThreadAffinityMask(GetCurrentThread(), m)\<close> returns its \<^verbatim>\<open>DWORD_PTR\<close> and the new
    state.
\<close>

type_synonym DWORD_PTR = "64 word"

record 's win32_sys =
  ptr_bits :: nat
  GetProcessAffinityMask :: "'s \<Rightarrow> int \<times> DWORD_PTR \<times> DWORD_PTR"
  SetThreadAffinityMask :: "DWORD_PTR \<Rightarrow> 's \<Rightarrow> DWORD_PTR \<times> 's"

definition moonbit_get_affinity_mask_win32 :: "'s win32_sys \<Rightarrow> 's \<Rightarrow> uint64_t" where
  "moonbit_get_affinity_mask_win32 sys s =
     (case GetProcessAffinityMask sys s of
        (ok, process_affinity_mask, system_affinity_mask) \<Rightarrow>
          if ok \<noteq> 0 then take_bit (ptr_bits sys) process_affinity_mask else 0)"

definition moonbit_set_affinity_mask_win32 :: "'s win32_sys \<Rightarrow> uint64_t \<Rightarrow> 's \<Rightarrow> bool \<times> 's" where
  "moonbit_set_affinity_mask_win32 sys msk s =
     (case SetThreadAffinityMask sys (take_bit (ptr_bits sys) msk) s of
        (previous, s') \<Rightarrow> (previous \<noteq> 0, s'))"

section \<open>macOS backend\<close>

text \<open>
  \<^item> \<^verbatim>\<open>sysctlbyname(name, &v, &size, NULL, 0)\<close> with an \<^verbatim>\<open>int v\<close> returns its return code and
    the value it wrote; it only reads.
  \<^item> \<^verbatim>\<open>thread_policy_set(pthread_mach_thread_np(pthread_self()), THREAD_AFFINITY_POLICY,
    &policy, THREAD_AFFINITY_POLICY_COUNT)\<close> takes the affinity tag of \<^verbatim>\<open>policy\<close> and returns
    its \<^verbatim>\<open>kern_return_t\<close> and the new state.
\<close>

record 's apple_sys =
  sysctlbyname :: "string \<Rightarrow> 's \<Rightarrow> int \<times> int"
  thread_policy_set :: "int \<Rightarrow> 's \<Rightarrow> int \<times> 's"

text \<open>
  \<^verbatim>\<open>(1ULL << count) - 1\<close> is reached with any \<^verbatim>\<open>count < 64\<close>. Shifting by a negative amount
  is undefined behaviour in C: the model returns \<open>None\<close> there, and \<open>Some\<close> of the returned
  mask everywhere else.
\<close>

definition moonbit_get_affinity_mask_apple :: "'s apple_sys \<Rightarrow> 's \<Rightarrow> uint64_t option" where
  "moonbit_get_affinity_mask_apple sys s =
     (case sysctlbyname sys ''hw.logicalcpu'' s of
        (rc, count) \<Rightarrow>
          if rc = 0
          then (if count \<ge> 64 then Some 0xFFFFFFFFFFFFFFFF
                else if count < 0 then None
                else Some (push_bit (nat count) 1 - 1))
          else Some 0)"

text \<open>
  \<^verbatim>\<open>for (int i = 0; i < 64; i++)
    if ((mask >> i) & 1) { policy = { i }; result = thread_policy_set(...); return true; }
  return false;\<close>
\<close>

function set_loop_apple :: "'s apple_sys \<Rightarrow> uint64_t \<Rightarrow> nat \<Rightarrow> 's \<Rightarrow> bool \<times> 's" where
  "set_loop_apple sys msk i s =
     (if i < 64
      then (if drop_bit i msk AND 1 \<noteq> 0
            then (case thread_policy_set sys (int i) s of (result, s') \<Rightarrow> (True, s'))
            else set_loop_apple sys msk (i + 1) s)
      else (False, s))"
  by pat_completeness auto
termination
  by (relation "measure (\<lambda>(sys, msk, i, s). 64 - i)") auto

declare set_loop_apple.simps [simp del]

definition moonbit_set_affinity_mask_apple :: "'s apple_sys \<Rightarrow> uint64_t \<Rightarrow> 's \<Rightarrow> bool \<times> 's" where
  "moonbit_set_affinity_mask_apple sys msk s =
     (case sysctlbyname sys ''hw.optional.arm64'' s of
        (rc, is_arm64) \<Rightarrow>
          if rc = 0 \<and> is_arm64 \<noteq> 0 then (True, s) else set_loop_apple sys msk 0 s)"

section \<open>Fallback backend and the selection of the backend\<close>

definition moonbit_get_affinity_mask_other :: "uint64_t" where
  "moonbit_get_affinity_mask_other = 0"

definition moonbit_set_affinity_mask_other :: "uint64_t \<Rightarrow> bool" where
  "moonbit_set_affinity_mask_other msk = False"

text \<open>
  The preprocessor keeps exactly one of the four pairs of functions. A target is the
  branch kept, together with the OS calls that branch links against.
\<close>

datatype 's target =
    Target_WIN32 "'s win32_sys"
  | Target_linux "'s linux_sys"
  | Target_APPLE "'s apple_sys"
  | Target_other

fun moonbit_get_affinity_mask :: "'s target \<Rightarrow> 's \<Rightarrow> uint64_t option" where
  "moonbit_get_affinity_mask (Target_WIN32 sys) s = Some (moonbit_get_affinity_mask_win32 sys s)"
| "moonbit_get_affinity_mask (Target_linux sys) s = Some (moonbit_get_affinity_mask_linux sys s)"
| "moonbit_get_affinity_mask (Target_APPLE sys) s = moonbit_get_affinity_mask_apple sys s"
| "moonbit_get_affinity_mask Target_other s = Some moonbit_get_affinity_mask_other"

fun moonbit_set_affinity_mask :: "'s target \<Rightarrow> uint64_t \<Rightarrow> 's \<Rightarrow> bool \<times> 's" where
  "moonbit_set_affinity_mask (Target_WIN32 sys) msk s = moonbit_set_affinity_mask_win32 sys msk s"
| "moonbit_set_affinity_mask (Target_linux sys) msk s = moonbit_set_affinity_mask_linux sys msk s"
| "moonbit_set_affinity_mask (Target_APPLE sys) msk s = moonbit_set_affinity_mask_apple sys msk s"
| "moonbit_set_affinity_mask Target_other msk s = (moonbit_set_affinity_mask_other msk, s)"

section \<open>The operating systems, as documented\<close>

text \<open>
  Some claims are about what a call returns on a given operating system, or about two
  calls in a row. They are settled on the following models of the three kernels, which
  follow the documentation of the calls and nothing else.
\<close>

subsection \<open>Linux: sched\_setaffinity(2), sched\_getaffinity(2)\<close>

text \<open>
  \<open>cpus_allowed\<close>: the CPUs present on the system and permitted to the thread (all below
  \<open>nr_cpu_ids\<close>); \<open>cpus_mask\<close>: the affinity of the calling thread.
  \<^item> \<^verbatim>\<open>sched_setaffinity\<close> fails (EINVAL, -1) when the requested set contains no allowed
    CPU; otherwise the thread's affinity becomes the allowed part of the request.
  \<^item> \<^verbatim>\<open>sched_getaffinity\<close> fails (EINVAL, -1) when the caller's set is smaller than the
    kernel's; otherwise it writes the thread's affinity.
\<close>

record linux_kernel =
  nr_cpu_ids :: nat
  cpus_allowed :: "nat set"
  cpus_mask :: "nat set"

definition kernel_sched_setaffinity :: "cpu_set_t \<Rightarrow> linux_kernel \<Rightarrow> int \<times> linux_kernel" where
  "kernel_sched_setaffinity request k =
     (if request \<inter> cpus_allowed k = {} then (- 1, k)
      else (0, k\<lparr>cpus_mask := request \<inter> cpus_allowed k\<rparr>))"

definition kernel_sched_getaffinity :: "nat \<Rightarrow> linux_kernel \<Rightarrow> int \<times> cpu_set_t" where
  "kernel_sched_getaffinity setsize k =
     (if setsize < nr_cpu_ids k then (- 1, {}) else (0, cpus_mask k))"

definition linux :: "nat \<Rightarrow> linux_kernel linux_sys" where
  "linux setsize =
     \<lparr>CPU_SETSIZE = setsize,
      sched_getaffinity = kernel_sched_getaffinity setsize,
      sched_setaffinity = kernel_sched_setaffinity\<rparr>"

subsection \<open>Windows: SetThreadAffinityMask, GetProcessAffinityMask\<close>

text \<open>
  The process affinity mask and the affinity mask of the calling thread are two masks.
  \<^item> \<^verbatim>\<open>SetThreadAffinityMask\<close> fails (returns 0) when the mask is 0 or requests a processor
    that is not selected for the process affinity mask; otherwise it sets the thread's
    mask and returns the previous one.
  \<^item> \<^verbatim>\<open>GetProcessAffinityMask\<close> on the current process succeeds and writes the process and
    system masks.
\<close>

record nt_kernel =
  process_affinity :: DWORD_PTR
  system_affinity :: DWORD_PTR
  thread_affinity :: DWORD_PTR

definition nt_SetThreadAffinityMask :: "DWORD_PTR \<Rightarrow> nt_kernel \<Rightarrow> DWORD_PTR \<times> nt_kernel" where
  "nt_SetThreadAffinityMask m k =
     (if m = 0 \<or> m AND NOT (process_affinity k) \<noteq> 0 then (0, k)
      else (thread_affinity k, k\<lparr>thread_affinity := m\<rparr>))"

definition nt_GetProcessAffinityMask :: "nt_kernel \<Rightarrow> int \<times> DWORD_PTR \<times> DWORD_PTR" where
  "nt_GetProcessAffinityMask k = (1, process_affinity k, system_affinity k)"

definition windows :: "nat \<Rightarrow> nt_kernel win32_sys" where
  "windows bits =
     \<lparr>ptr_bits = bits,
      GetProcessAffinityMask = nt_GetProcessAffinityMask,
      SetThreadAffinityMask = nt_SetThreadAffinityMask\<rparr>"

subsection \<open>macOS: sysctlbyname, thread\_policy\_set\<close>

text \<open>
  The two sysctl values are properties of the machine (\<open>None\<close>: the name is unknown, the
  call fails with -1). \<^verbatim>\<open>thread_policy_set\<close> with the affinity flavour records the tag
  and returns \<^verbatim>\<open>KERN_SUCCESS\<close> (0) where the kernel supports affinity tags, and returns
  \<^verbatim>\<open>KERN_NOT_SUPPORTED\<close> (46) where it does not. \<open>policy_requests\<close> logs the tag of every
  request made, whatever its outcome.
\<close>

record xnu_kernel =
  hw_logicalcpu :: "int option"
  hw_optional_arm64 :: "int option"
  affinity_supported :: bool
  affinity_tag :: int
  policy_requests :: "int list"

definition xnu_sysctlbyname :: "string \<Rightarrow> xnu_kernel \<Rightarrow> int \<times> int" where
  "xnu_sysctlbyname name k =
     (case (if name = ''hw.logicalcpu'' then hw_logicalcpu k
            else if name = ''hw.optional.arm64'' then hw_optional_arm64 k
            else None) of
        None \<Rightarrow> (- 1, 0)
      | Some v \<Rightarrow> (0, v))"

definition xnu_thread_policy_set :: "int \<Rightarrow> xnu_kernel \<Rightarrow> int \<times> xnu_kernel" where
  "xnu_thread_policy_set tag k =
     (if affinity_supported k
      then (0, k\<lparr>affinity_tag := tag, policy_requests := policy_requests k @ [tag]\<rparr>)
      else (46, k\<lparr>policy_requests := policy_requests k @ [tag]\<rparr>))"

definition macos :: "xnu_kernel apple_sys" where
  "macos = \<lparr>sysctlbyname = xnu_sysctlbyname, thread_policy_set = xnu_thread_policy_set\<rparr>"

section \<open>Machines used as examples\<close>

definition linux_4cpu :: linux_kernel where
  "linux_4cpu = \<lparr>nr_cpu_ids = 4, cpus_allowed = {0, 1, 2, 3}, cpus_mask = {0, 1, 2, 3}\<rparr>"


definition windows_4cpu :: nt_kernel where
  "windows_4cpu = \<lparr>process_affinity = 15, system_affinity = 15, thread_affinity = 15\<rparr>"

definition intel_mac_4cpu :: xnu_kernel where
  "intel_mac_4cpu =
     \<lparr>hw_logicalcpu = Some 4, hw_optional_arm64 = None, affinity_supported = False,
      affinity_tag = 0, policy_requests = []\<rparr>"

definition apple_silicon_8cpu :: xnu_kernel where
  "apple_silicon_8cpu =
     \<lparr>hw_logicalcpu = Some 8, hw_optional_arm64 = Some 1, affinity_supported = False,
      affinity_tag = 0, policy_requests = []\<rparr>"

section \<open>Properties of the loops\<close>

lemma shifted_bit_test: "(drop_bit i (w :: uint64_t) AND 1 \<noteq> 0) = bit w i"
  by (simp add: bit_iff_and_drop_bit_eq_1 and_one_eq mod_2_eq_odd)

lemma bit_one_shifted: "bit (push_bit i (1 :: uint64_t)) n \<longleftrightarrow> n = i \<and> i < 64"
  by (auto simp: bit_exp_iff)

lemma bit_get_loop_linux:
  "bit (get_loop_linux setsize cpus i result) n \<longleftrightarrow>
     bit result n \<or> (i \<le> n \<and> n < 64 \<and> n < setsize \<and> n \<in> cpus)"
proof (induction setsize cpus i result rule: get_loop_linux.induct)
  case (1 setsize cpus i result)
  show ?case
  proof (cases "i < 64 \<and> i < setsize")
    case True
    then have "bit (get_loop_linux setsize cpus i result) n \<longleftrightarrow>
        bit (if CPU_ISSET setsize i cpus then result OR push_bit i 1 else result) n
        \<or> (i + 1 \<le> n \<and> n < 64 \<and> n < setsize \<and> n \<in> cpus)"
      using "1.IH" by (subst get_loop_linux.simps) simp
    also have "\<dots> \<longleftrightarrow> bit result n \<or> (i \<le> n \<and> n < 64 \<and> n < setsize \<and> n \<in> cpus)"
      using True bit_one_shifted [of i n]
      by (auto simp: CPU_ISSET_def bit_or_iff simp del: push_bit_of_1)
    finally show ?thesis .
  next
    case False
    then show ?thesis
      by (subst get_loop_linux.simps) auto
  qed
qed

lemma set_loop_linux_eq:
  "set_loop_linux setsize mask_val i cpus =
     cpus \<union> {n. i \<le> n \<and> n < 64 \<and> n < setsize \<and> bit mask_val n}"
proof (induction setsize mask_val i cpus rule: set_loop_linux.induct)
  case (1 setsize mask_val i cpus)
  show ?case
  proof (cases "i < 64")
    case True
    have "set_loop_linux setsize mask_val i cpus =
        (if bit mask_val i then CPU_SET setsize i cpus else cpus)
        \<union> {n. i + 1 \<le> n \<and> n < 64 \<and> n < setsize \<and> bit mask_val n}"
      using True "1.IH" by (subst set_loop_linux.simps) (simp add: shifted_bit_test)
    also have "\<dots> = cpus \<union> {n. i \<le> n \<and> n < 64 \<and> n < setsize \<and> bit mask_val n}"
      using True by (auto simp: CPU_SET_def le_less Suc_le_eq)
    finally show ?thesis .
  next
    case False
    then show ?thesis
      by (subst set_loop_linux.simps) auto
  qed
qed

lemma requested_cpu_set:
  "set_loop_linux setsize mask_val 0 CPU_ZERO = {n. n < 64 \<and> n < setsize \<and> bit mask_val n}"
  by (simp add: set_loop_linux_eq CPU_ZERO_def)

lemma requested_take_bit:
  assumes "allowed \<subseteq> {..<n}"
  shows "{j. j < 64 \<and> j < setsize \<and> bit (take_bit n msk) j} \<inter> allowed
       = {j. j < 64 \<and> j < setsize \<and> bit (msk :: uint64_t) j} \<inter> allowed"
  using assms by (auto simp: bit_take_bit_iff)

lemma set_loop_apple_no_bit:
  "\<forall>n. i \<le> n \<and> n < 64 \<longrightarrow> \<not> bit msk n \<Longrightarrow> set_loop_apple sys msk i s = (False, s)"
proof (induction sys msk i s rule: set_loop_apple.induct)
  case (1 sys msk i s)
  show ?case
  proof (cases "i < 64")
    case True
    with "1.prems" have nb: "\<not> bit msk i" by simp
    have "set_loop_apple sys msk i s = set_loop_apple sys msk (i + 1) s"
      using True nb by (subst set_loop_apple.simps) (simp add: shifted_bit_test)
    also have "\<dots> = (False, s)"
      using True nb "1.prems" by (intro "1.IH") (auto simp: shifted_bit_test)
    finally show ?thesis .
  next
    case False
    then show ?thesis by (subst set_loop_apple.simps) simp
  qed
qed

lemma set_loop_apple_first_bit:
  "bit msk n \<Longrightarrow> i \<le> n \<Longrightarrow> \<forall>j. i \<le> j \<and> j < n \<longrightarrow> \<not> bit msk j \<Longrightarrow>
   set_loop_apple sys msk i s = (True, snd (thread_policy_set sys (int n) s))"
proof (induction sys msk i s rule: set_loop_apple.induct)
  case (1 sys msk i s)
  from "1.prems"(1) have n64: "n < 64" by (auto dest: bit_imp_le_length)
  show ?case
  proof (cases "i = n")
    case True
    then show ?thesis
      using n64 "1.prems"(1)
      by (subst set_loop_apple.simps) (simp add: shifted_bit_test split: prod.split)
  next
    case False
    with "1.prems" have lt: "i < n" and nb: "\<not> bit msk i" by auto
    have "set_loop_apple sys msk i s = set_loop_apple sys msk (i + 1) s"
      using lt n64 nb by (subst set_loop_apple.simps) (simp add: shifted_bit_test)
    also have "\<dots> = (True, snd (thread_policy_set sys (int n) s))"
      using lt n64 nb "1.prems" by (intro "1.IH") (auto simp: shifted_bit_test)
    finally show ?thesis .
  qed
qed

lemma set_loop_apple_nonzero:
  "msk \<noteq> 0 \<Longrightarrow> \<exists>i<64. set_loop_apple sys msk 0 s = (True, snd (thread_policy_set sys (int i) s))"
proof -
  assume "msk \<noteq> 0"
  then obtain j where "bit msk j" by (auto simp: bit_eq_iff)
  define i where "i = (LEAST j. bit msk j)"
  have bi: "bit msk i" unfolding i_def using \<open>bit msk j\<close> by (rule LeastI)
  have "\<not> bit msk j" if "j < i" for j
    using that not_less_Least unfolding i_def by blast
  with bi have "set_loop_apple sys msk 0 s = (True, snd (thread_policy_set sys (int i) s))"
    by (intro set_loop_apple_first_bit) auto
  moreover from bi have "i < 64" by (auto dest: bit_imp_le_length)
  ultimately show ?thesis by blast
qed

lemma set_loop_apple_fst: "fst (set_loop_apple sys msk 0 s) \<longleftrightarrow> msk \<noteq> 0"
proof (cases "msk = 0")
  case True
  then show ?thesis using set_loop_apple_no_bit [of 0 msk sys s] by simp
next
  case False
  then obtain n where "bit msk n" by (auto simp: bit_eq_iff)
  define m where "m = (LEAST n. bit msk n)"
  have bm: "bit msk m" unfolding m_def using \<open>bit msk n\<close> by (rule LeastI)
  have "\<forall>j. 0 \<le> j \<and> j < m \<longrightarrow> \<not> bit msk j"
    unfolding m_def using not_less_Least by blast
  with bm have "set_loop_apple sys msk 0 s = (True, snd (thread_policy_set sys (int m) s))"
    by (intro set_loop_apple_first_bit) auto
  with False show ?thesis by simp
qed

lemma set_loop_apple_take_bit:
  assumes "take_bit n msk \<noteq> 0"
  shows "set_loop_apple sys (take_bit n msk) 0 s = set_loop_apple sys msk 0 s"
proof -
  from assms obtain j where "bit (take_bit n msk) j" by (auto simp: bit_eq_iff)
  define i where "i = (LEAST j. bit (take_bit n msk) j)"
  have bi: "bit (take_bit n msk) i"
    unfolding i_def using \<open>bit (take_bit n msk) j\<close> by (rule LeastI)
  then have "i < n" and "bit msk i" by (simp_all add: bit_take_bit_iff)
  have below: "\<not> bit (take_bit n msk) j" if "j < i" for j
    using that not_less_Least unfolding i_def by blast
  then have below': "\<not> bit msk j" if "j < i" for j
    using that \<open>i < n\<close> by (force simp: bit_take_bit_iff)
  have "set_loop_apple sys (take_bit n msk) 0 s = (True, snd (thread_policy_set sys (int i) s))"
    using bi below by (intro set_loop_apple_first_bit) auto
  moreover have "set_loop_apple sys msk 0 s = (True, snd (thread_policy_set sys (int i) s))"
    using \<open>bit msk i\<close> below' by (intro set_loop_apple_first_bit) auto
  ultimately show ?thesis by simp
qed

lemma set_apple_cases:
  "moonbit_set_affinity_mask_apple sys msk s =
     (if fst (sysctlbyname sys ''hw.optional.arm64'' s) = 0
         \<and> snd (sysctlbyname sys ''hw.optional.arm64'' s) \<noteq> 0
      then (True, s) else set_loop_apple sys msk 0 s)"
  by (cases "sysctlbyname sys ''hw.optional.arm64'' s")
    (simp add: moonbit_set_affinity_mask_apple_def)

lemma top_bit_only: "bit (2 ^ 63 :: uint64_t) j \<longleftrightarrow> j = 63"
  by (simp only: bit_exp_iff possible_bit_word) auto

lemma set_linux_any_os:
  "moonbit_set_affinity_mask_linux sys mask_val s =
     (fst (sched_setaffinity sys {j. j < 64 \<and> j < CPU_SETSIZE sys \<and> bit mask_val j} s) = 0,
      snd (sched_setaffinity sys {j. j < 64 \<and> j < CPU_SETSIZE sys \<and> bit mask_val j} s))"
  by (simp add: moonbit_set_affinity_mask_linux_def requested_cpu_set split: prod.split)

lemma set_win32_any_os:
  "moonbit_set_affinity_mask_win32 sys msk s =
     (fst (SetThreadAffinityMask sys (take_bit (ptr_bits sys) msk) s) \<noteq> 0,
      snd (SetThreadAffinityMask sys (take_bit (ptr_bits sys) msk) s))"
  by (simp add: moonbit_set_affinity_mask_win32_def split: prod.split)

lemma set_apple_intel_lowest:
  assumes "\<not> (fst (sysctlbyname sys ''hw.optional.arm64'' s) = 0
              \<and> snd (sysctlbyname sys ''hw.optional.arm64'' s) \<noteq> 0)"
    and "bit msk i" and "\<forall>j<i. \<not> bit msk j"
  shows "moonbit_set_affinity_mask_apple sys msk s
           = (True, snd (thread_policy_set sys (int i) s))"
proof -
  have "set_loop_apple sys msk 0 s = (True, snd (thread_policy_set sys (int i) s))"
    using assms(2,3) by (intro set_loop_apple_first_bit) auto
  with assms(1) show ?thesis by (auto simp: set_apple_cases)
qed

lemma set_apple_intel_zero:
  assumes "\<not> (fst (sysctlbyname sys ''hw.optional.arm64'' s) = 0
              \<and> snd (sysctlbyname sys ''hw.optional.arm64'' s) \<noteq> 0)"
  shows "moonbit_set_affinity_mask_apple sys 0 s = (False, s)"
proof -
  have "set_loop_apple sys 0 0 s = (False, s)"
    by (rule set_loop_apple_no_bit) simp
  with assms show ?thesis by (auto simp: set_apple_cases)
qed

section \<open>The backends on the documented kernels\<close>

lemma set_linux_on_kernel:
  "moonbit_set_affinity_mask_linux (linux setsize) mask_val k =
     (if {n. n < 64 \<and> n < setsize \<and> bit mask_val n} \<inter> cpus_allowed k = {} then (False, k)
      else (True, k\<lparr>cpus_mask := {n. n < 64 \<and> n < setsize \<and> bit mask_val n} \<inter> cpus_allowed k\<rparr>))"
  by (simp add: moonbit_set_affinity_mask_linux_def linux_def kernel_sched_setaffinity_def
      requested_cpu_set)


lemma set_win32_on_nt:
  "moonbit_set_affinity_mask_win32 (windows bits) msk w =
     (if take_bit bits msk = 0 \<or> take_bit bits msk AND NOT (process_affinity w) \<noteq> 0
      then (False, w)
      else (thread_affinity w \<noteq> 0, w\<lparr>thread_affinity := take_bit bits msk\<rparr>))"
  by (simp add: moonbit_set_affinity_mask_win32_def windows_def nt_SetThreadAffinityMask_def)


lemma nt_rejects_outside_process:
  assumes "process_affinity w AND NOT (mask n) = 0" and "take_bit bits msk AND NOT (mask n) \<noteq> 0"
  shows "moonbit_set_affinity_mask_win32 (windows bits) msk w = (False, w)"
proof -
  from assms(2) obtain j where j: "bit (take_bit bits msk) j" "\<not> bit (mask n :: uint64_t) j"
    by (auto simp: bit_eq_iff bit_and_iff bit_not_iff)
  have "\<not> bit (process_affinity w) j"
  proof
    assume "bit (process_affinity w) j"
    with j(2) have "bit (process_affinity w AND NOT (mask n)) j"
      by (auto simp: bit_and_iff bit_not_iff dest: bit_imp_le_length)
    with assms(1) show False by simp
  qed
  with j(1) have "bit (take_bit bits msk AND NOT (process_affinity w)) j"
    by (auto simp: bit_and_iff bit_not_iff dest: bit_imp_le_length)
  then have "take_bit bits msk AND NOT (process_affinity w) \<noteq> 0"
    by force
  then show ?thesis by (simp add: set_win32_on_nt)
qed

lemma arm64_reply_on_xnu:
  "sysctlbyname macos ''hw.optional.arm64'' x
     = (case hw_optional_arm64 x of None \<Rightarrow> (- 1, 0) | Some v \<Rightarrow> (0, v))"
  by (simp add: macos_def xnu_sysctlbyname_def)

lemma xnu_keeps_machine:
  "hw_optional_arm64 (snd (set_loop_apple macos msk 0 x)) = hw_optional_arm64 x"
proof (cases "msk = 0")
  case True
  have "set_loop_apple macos 0 0 x = (False, x)"
    by (rule set_loop_apple_no_bit) simp
  with True show ?thesis by simp
next
  case False
  then obtain i where "set_loop_apple macos msk 0 x = (True, snd (thread_policy_set macos (int i) x))"
    using set_loop_apple_nonzero [of msk macos x] by blast
  then show ?thesis
    by (simp add: macos_def xnu_thread_policy_set_def)
qed

section \<open>The claims\<close>

text \<open>
  C1. On Intel macOS (the \<^verbatim>\<open>hw.optional.arm64\<close> query fails or reports 0), binding a mask
  whose lowest set bit is \<open>i\<close> makes exactly one \<^verbatim>\<open>thread_policy_set\<close> request, with affinity
  tag \<open>i\<close>, and returns true. The OS call is arbitrary here, so the result is true whatever
  return code it gives: the final state is the state that one request leaves.
\<close>

theorem intel_macos_first_set_bit:
  assumes "\<not> (fst (sysctlbyname sys ''hw.optional.arm64'' s) = 0
              \<and> snd (sysctlbyname sys ''hw.optional.arm64'' s) \<noteq> 0)"
    and "bit msk i" and "\<forall>j<i. \<not> bit msk j"
  shows "moonbit_set_affinity_mask_apple sys msk s
           = (True, snd (thread_policy_set sys (int i) s))"
proof -
  have "set_loop_apple sys msk 0 s = (True, snd (thread_policy_set sys (int i) s))"
    using assms(2,3) by (intro set_loop_apple_first_bit) auto
  then show ?thesis
    using assms(1)
    by (cases "sysctlbyname sys ''hw.optional.arm64'' s")
      (auto simp: moonbit_set_affinity_mask_apple_def)
qed

theorem intel_macos_first_set_bit_witness:
  "moonbit_set_affinity_mask_apple macos 6 intel_mac_4cpu
     = (True, intel_mac_4cpu\<lparr>policy_requests := [1]\<rparr>)
   \<and> fst (xnu_thread_policy_set 1 intel_mac_4cpu) = 46"
  using intel_macos_first_set_bit [of macos intel_mac_4cpu 6 1]
  by (simp add: macos_def xnu_sysctlbyname_def xnu_thread_policy_set_def intel_mac_4cpu_def
      less_Suc_eq)

text \<open>
  C2. On Apple Silicon (the \<^verbatim>\<open>hw.optional.arm64\<close> query succeeds with a nonzero value),
  binding returns true for every mask, the zero mask included, and leaves the OS state as
  it was: no call that changes the thread's scheduling is made.
\<close>

theorem apple_silicon_always_true:
  assumes "sysctlbyname sys ''hw.optional.arm64'' s = (0, v)" and "v \<noteq> 0"
  shows "moonbit_set_affinity_mask_apple sys msk s = (True, s)"
  using assms by (simp add: moonbit_set_affinity_mask_apple_def)

theorem apple_silicon_always_true_witness:
  "moonbit_set_affinity_mask_apple macos 0 apple_silicon_8cpu = (True, apple_silicon_8cpu)
   \<and> moonbit_set_affinity_mask_apple macos 5 apple_silicon_8cpu = (True, apple_silicon_8cpu)"
  using apple_silicon_always_true [of macos apple_silicon_8cpu 1 0]
    apple_silicon_always_true [of macos apple_silicon_8cpu 1 5]
  by (simp add: macos_def xnu_sysctlbyname_def apple_silicon_8cpu_def)

text \<open>
  C3. On macOS the query asks for \<^verbatim>\<open>hw.logicalcpu\<close>. When the call succeeds with a count
  \<open>c\<close>, \<open>0 \<le> c < 64\<close>, the result is \<open>2 ^ c - 1\<close>, the mask whose set bits are exactly the
  \<open>c\<close> lowest; with \<open>c \<ge> 64\<close> it is the all-ones mask; when the call fails it is 0.
\<close>

theorem macos_query_synthesized:
  assumes "sysctlbyname sys ''hw.logicalcpu'' s = (rc, c)"
  shows "(rc = 0 \<and> 0 \<le> c \<and> c < 64 \<longrightarrow>
            moonbit_get_affinity_mask_apple sys s = Some (2 ^ nat c - 1)
            \<and> (\<forall>n. bit (2 ^ nat c - 1 :: uint64_t) n \<longleftrightarrow> n < nat c))
       \<and> (rc = 0 \<and> 64 \<le> c \<longrightarrow>
            moonbit_get_affinity_mask_apple sys s = Some (- 1)
            \<and> (\<forall>n<64. bit (- 1 :: uint64_t) n))
       \<and> (rc \<noteq> 0 \<longrightarrow> moonbit_get_affinity_mask_apple sys s = Some 0)"
proof -
  have "bit (2 ^ nat c - 1 :: uint64_t) n \<longleftrightarrow> n < nat c" if "c < 64" for n
    using that by (auto simp flip: mask_eq_exp_minus_1 simp: bit_mask_iff)
  then show ?thesis
    using assms by (simp add: moonbit_get_affinity_mask_apple_def)
qed

theorem macos_query_synthesized_witness:
  "moonbit_get_affinity_mask_apple macos intel_mac_4cpu = Some 15
   \<and> moonbit_get_affinity_mask_apple macos (intel_mac_4cpu\<lparr>hw_logicalcpu := Some 128\<rparr>)
       = Some 0xFFFFFFFFFFFFFFFF
   \<and> moonbit_get_affinity_mask_apple macos (intel_mac_4cpu\<lparr>hw_logicalcpu := None\<rparr>) = Some 0"
  using macos_query_synthesized [of macos intel_mac_4cpu 0 4]
    macos_query_synthesized [of macos "intel_mac_4cpu\<lparr>hw_logicalcpu := Some 128\<rparr>" 0 128]
    macos_query_synthesized [of macos "intel_mac_4cpu\<lparr>hw_logicalcpu := None\<rparr>" "- 1" 0]
  by (simp add: macos_def xnu_sysctlbyname_def intel_mac_4cpu_def)

text \<open>
  C4. Binding the mask 0 returns false on Linux, on Windows and on Intel macOS, and true
  on Apple Silicon. On Linux and Windows the code has no test of its own: it hands the
  empty CPU set, respectively the mask 0, to the OS and returns the verdict of the OS,
  which rejects it (EINVAL; a zero return).
\<close>

theorem empty_mask:
  "moonbit_set_affinity_mask_linux sys_l 0 s_l
      = (fst (sched_setaffinity sys_l {} s_l) = 0, snd (sched_setaffinity sys_l {} s_l))
   \<and> fst (moonbit_set_affinity_mask_linux (linux setsize) 0 k) = False
   \<and> moonbit_set_affinity_mask_win32 sys_w 0 s_w
      = (fst (SetThreadAffinityMask sys_w 0 s_w) \<noteq> 0, snd (SetThreadAffinityMask sys_w 0 s_w))
   \<and> fst (moonbit_set_affinity_mask_win32 (windows bits) 0 w) = False
   \<and> (\<not> (fst (sysctlbyname sys ''hw.optional.arm64'' s) = 0
           \<and> snd (sysctlbyname sys ''hw.optional.arm64'' s) \<noteq> 0)
        \<longrightarrow> moonbit_set_affinity_mask_apple sys 0 s = (False, s))
   \<and> (fst (sysctlbyname sys ''hw.optional.arm64'' s) = 0
           \<and> snd (sysctlbyname sys ''hw.optional.arm64'' s) \<noteq> 0
        \<longrightarrow> moonbit_set_affinity_mask_apple sys 0 s = (True, s))"
proof -
  have l: "moonbit_set_affinity_mask_linux sys_l 0 s_l
      = (fst (sched_setaffinity sys_l {} s_l) = 0, snd (sched_setaffinity sys_l {} s_l))"
    by (simp add: moonbit_set_affinity_mask_linux_def requested_cpu_set split: prod.split)
  have lk: "fst (moonbit_set_affinity_mask_linux (linux setsize) 0 k) = False"
    by (simp add: set_linux_on_kernel)
  have w: "moonbit_set_affinity_mask_win32 sys_w 0 s_w
      = (fst (SetThreadAffinityMask sys_w 0 s_w) \<noteq> 0, snd (SetThreadAffinityMask sys_w 0 s_w))"
    by (simp add: moonbit_set_affinity_mask_win32_def split: prod.split)
  have wk: "fst (moonbit_set_affinity_mask_win32 (windows bits) 0 w) = False"
    by (simp add: set_win32_on_nt)
  have a: "set_loop_apple sys 0 0 s = (False, s)"
    by (rule set_loop_apple_no_bit) simp
  show ?thesis
    using l lk w wk a by (simp add: set_apple_cases)
qed

theorem empty_mask_witness:
  "fst (moonbit_set_affinity_mask_linux (linux 1024) 0 linux_4cpu) = False
   \<and> fst (moonbit_set_affinity_mask_win32 (windows 64) 0 windows_4cpu) = False
   \<and> moonbit_set_affinity_mask_apple macos 0 intel_mac_4cpu = (False, intel_mac_4cpu)
   \<and> moonbit_set_affinity_mask_apple macos 0 apple_silicon_8cpu = (True, apple_silicon_8cpu)"
  using empty_mask [of "linux 1024" linux_4cpu 1024 linux_4cpu "windows 64" windows_4cpu
      64 windows_4cpu macos intel_mac_4cpu]
    empty_mask [of "linux 1024" linux_4cpu 1024 linux_4cpu "windows 64" windows_4cpu
      64 windows_4cpu macos apple_silicon_8cpu]
  by (simp add: macos_def xnu_sysctlbyname_def intel_mac_4cpu_def apple_silicon_8cpu_def)

text \<open>
  C5 (as stated, refuted). On an Intel Mac with 4 logical CPUs, binding the mask with only
  bit 63 set returns true and requests affinity tag 63, while binding that mask restricted
  to the bits below 4, which is 0, returns false and requests nothing. On a Windows
  machine with 4 CPUs, binding the mask with bits 0 and 4 set fails and leaves the
  thread's affinity as it was, while binding that mask restricted to the bits below 4,
  which is 1, succeeds and sets the thread's affinity to 1.
\<close>

theorem bits_beyond_cpu_count_counterexample:
  "hw_logicalcpu intel_mac_4cpu = Some 4
   \<and> moonbit_set_affinity_mask (Target_APPLE macos) (2 ^ 63) intel_mac_4cpu
       = (True, intel_mac_4cpu\<lparr>policy_requests := [63]\<rparr>)
   \<and> moonbit_set_affinity_mask (Target_APPLE macos) (take_bit 4 (2 ^ 63)) intel_mac_4cpu
       = (False, intel_mac_4cpu)
   \<and> moonbit_set_affinity_mask (Target_WIN32 (windows 64)) 0x11 windows_4cpu
       = (False, windows_4cpu)
   \<and> moonbit_set_affinity_mask (Target_WIN32 (windows 64)) (take_bit 4 0x11) windows_4cpu
       = (True, windows_4cpu\<lparr>thread_affinity := 1\<rparr>)"
proof -
  have "set_loop_apple macos (2 ^ 63) 0 intel_mac_4cpu
      = (True, snd (thread_policy_set macos (int 63) intel_mac_4cpu))"
    by (rule set_loop_apple_first_bit) (simp_all only: top_bit_only, simp_all)
  moreover have "take_bit 4 (2 ^ 63 :: uint64_t) = 0"
    by (simp add: take_bit_eq_mod)
  moreover have "set_loop_apple macos 0 0 intel_mac_4cpu = (False, intel_mac_4cpu)"
    by (rule set_loop_apple_no_bit) simp
  moreover have "moonbit_set_affinity_mask_win32 (windows 64) 0x11 windows_4cpu
      = (False, windows_4cpu)"
    by (simp add: set_win32_on_nt windows_4cpu_def)
  moreover have "moonbit_set_affinity_mask_win32 (windows 64) (take_bit 4 0x11) windows_4cpu
      = (True, windows_4cpu\<lparr>thread_affinity := 1\<rparr>)"
    by (simp add: set_win32_on_nt windows_4cpu_def take_bit_eq_mod)
  ultimately show ?thesis
    by (simp add: set_apple_cases macos_def xnu_sysctlbyname_def xnu_thread_policy_set_def
        intel_mac_4cpu_def)
qed

text \<open>
  C5 (amended). The binder never restricts the mask to the CPU count \<open>n\<close> itself: whatever
  the OS, the Linux binder hands it the set of all indices below 64 (and below
  \<^verbatim>\<open>CPU_SETSIZE\<close>) whose bit is set, and the Windows binder hands it the mask cut to pointer
  width and nothing else. Bits at or above \<open>n\<close> have no influence on Linux (the kernel
  intersects the requested set with the CPUs it allows, all below \<open>n\<close>), on Apple Silicon
  and on the fallback backend. On Intel macOS they have none when the mask has a bit set
  below \<open>n\<close> or is 0; when every set bit is at or above \<open>n\<close> the call makes one policy
  request, tagged with the lowest set bit \<open>i \<ge> n\<close>, and returns true, while the restricted
  mask returns false and requests nothing. On Windows a bit at or above \<open>n\<close> (within
  pointer width) makes the call fail (false, affinity unchanged) when the process
  affinity mask lies below \<open>n\<close>.
\<close>

theorem bits_beyond_cpu_count_amended:
  "moonbit_set_affinity_mask (Target_linux sys_l) msk s_l
      = (fst (sched_setaffinity sys_l {j. j < 64 \<and> j < CPU_SETSIZE sys_l \<and> bit msk j} s_l) = 0,
         snd (sched_setaffinity sys_l {j. j < 64 \<and> j < CPU_SETSIZE sys_l \<and> bit msk j} s_l))
   \<and> moonbit_set_affinity_mask (Target_WIN32 sys_w) msk s_w
      = (fst (SetThreadAffinityMask sys_w (take_bit (ptr_bits sys_w) msk) s_w) \<noteq> 0,
         snd (SetThreadAffinityMask sys_w (take_bit (ptr_bits sys_w) msk) s_w))
   \<and> (cpus_allowed k \<subseteq> {..<n}
      \<longrightarrow> moonbit_set_affinity_mask (Target_linux (linux setsize)) msk k
          = moonbit_set_affinity_mask (Target_linux (linux setsize)) (take_bit n msk) k)
   \<and> (fst (sysctlbyname sys ''hw.optional.arm64'' s) = 0
        \<and> snd (sysctlbyname sys ''hw.optional.arm64'' s) \<noteq> 0
      \<longrightarrow> moonbit_set_affinity_mask (Target_APPLE sys) msk s
          = moonbit_set_affinity_mask (Target_APPLE sys) (take_bit n msk) s)
   \<and> moonbit_set_affinity_mask Target_other msk s
          = moonbit_set_affinity_mask Target_other (take_bit n msk) s
   \<and> (\<not> (fst (sysctlbyname sys ''hw.optional.arm64'' s) = 0
           \<and> snd (sysctlbyname sys ''hw.optional.arm64'' s) \<noteq> 0)
        \<and> (take_bit n msk \<noteq> 0 \<or> msk = 0)
      \<longrightarrow> moonbit_set_affinity_mask (Target_APPLE sys) msk s
          = moonbit_set_affinity_mask (Target_APPLE sys) (take_bit n msk) s)
   \<and> (\<not> (fst (sysctlbyname sys ''hw.optional.arm64'' s) = 0
           \<and> snd (sysctlbyname sys ''hw.optional.arm64'' s) \<noteq> 0)
        \<and> take_bit n msk = 0 \<and> bit msk i \<and> (\<forall>j<i. \<not> bit msk j)
      \<longrightarrow> n \<le> i
          \<and> moonbit_set_affinity_mask (Target_APPLE sys) msk s
              = (True, snd (thread_policy_set sys (int i) s))
          \<and> moonbit_set_affinity_mask (Target_APPLE sys) (take_bit n msk) s = (False, s))
   \<and> (process_affinity w AND NOT (mask n) = 0 \<and> take_bit bits msk AND NOT (mask n) \<noteq> 0
      \<longrightarrow> moonbit_set_affinity_mask (Target_WIN32 (windows bits)) msk w = (False, w))"
proof -
  have any_linux: "moonbit_set_affinity_mask (Target_linux sys_l) msk s_l
      = (fst (sched_setaffinity sys_l {j. j < 64 \<and> j < CPU_SETSIZE sys_l \<and> bit msk j} s_l) = 0,
         snd (sched_setaffinity sys_l {j. j < 64 \<and> j < CPU_SETSIZE sys_l \<and> bit msk j} s_l))"
    using set_linux_any_os [of sys_l msk s_l] by simp
  have any_windows: "moonbit_set_affinity_mask (Target_WIN32 sys_w) msk s_w
      = (fst (SetThreadAffinityMask sys_w (take_bit (ptr_bits sys_w) msk) s_w) \<noteq> 0,
         snd (SetThreadAffinityMask sys_w (take_bit (ptr_bits sys_w) msk) s_w))"
    using set_win32_any_os [of sys_w msk s_w] by simp
  have linux_part: "cpus_allowed k \<subseteq> {..<n}
      \<longrightarrow> moonbit_set_affinity_mask (Target_linux (linux setsize)) msk k
          = moonbit_set_affinity_mask (Target_linux (linux setsize)) (take_bit n msk) k"
    by (simp add: set_linux_on_kernel requested_take_bit)
  have windows_part:
    "process_affinity w AND NOT (mask n) = 0 \<and> take_bit bits msk AND NOT (mask n) \<noteq> 0
      \<longrightarrow> moonbit_set_affinity_mask (Target_WIN32 (windows bits)) msk w = (False, w)"
    using nt_rejects_outside_process [of w n bits msk] by simp
  have silicon_and_other:
    "(fst (sysctlbyname sys ''hw.optional.arm64'' s) = 0
        \<and> snd (sysctlbyname sys ''hw.optional.arm64'' s) \<noteq> 0
      \<longrightarrow> moonbit_set_affinity_mask (Target_APPLE sys) msk s
          = moonbit_set_affinity_mask (Target_APPLE sys) (take_bit n msk) s)
     \<and> moonbit_set_affinity_mask Target_other msk s
          = moonbit_set_affinity_mask Target_other (take_bit n msk) s"
    by (simp add: set_apple_cases moonbit_set_affinity_mask_other_def)
  have intel_same:
    "\<not> (fst (sysctlbyname sys ''hw.optional.arm64'' s) = 0
           \<and> snd (sysctlbyname sys ''hw.optional.arm64'' s) \<noteq> 0)
        \<and> (take_bit n msk \<noteq> 0 \<or> msk = 0)
      \<longrightarrow> moonbit_set_affinity_mask (Target_APPLE sys) msk s
          = moonbit_set_affinity_mask (Target_APPLE sys) (take_bit n msk) s"
    by (auto simp: set_apple_cases set_loop_apple_take_bit)
  have intel_differs:
    "n \<le> i
      \<and> moonbit_set_affinity_mask (Target_APPLE sys) msk s
          = (True, snd (thread_policy_set sys (int i) s))
      \<and> moonbit_set_affinity_mask (Target_APPLE sys) (take_bit n msk) s = (False, s)"
    if intel: "\<not> (fst (sysctlbyname sys ''hw.optional.arm64'' s) = 0
           \<and> snd (sysctlbyname sys ''hw.optional.arm64'' s) \<noteq> 0)"
      and z: "take_bit n msk = 0" and b: "bit msk i" and l: "\<forall>j<i. \<not> bit msk j"
  proof -
    have "\<not> bit (take_bit n msk) i" using z by simp
    with b have "n \<le> i" by (simp add: bit_take_bit_iff)
    moreover have "moonbit_set_affinity_mask_apple sys msk s
          = (True, snd (thread_policy_set sys (int i) s))"
      using intel b l by (rule set_apple_intel_lowest)
    moreover have "moonbit_set_affinity_mask_apple sys (take_bit n msk) s = (False, s)"
      using set_apple_intel_zero [OF intel] z by simp
    ultimately show ?thesis by simp
  qed
  show ?thesis
    using any_linux any_windows linux_part windows_part silicon_and_other intel_same
      intel_differs
    by blast
qed

theorem bits_beyond_cpu_count_amended_witness:
  "moonbit_set_affinity_mask (Target_linux (linux 1024)) 0x13 linux_4cpu
     = moonbit_set_affinity_mask (Target_linux (linux 1024)) (take_bit 4 0x13) linux_4cpu
   \<and> moonbit_set_affinity_mask (Target_APPLE macos) 0x13 intel_mac_4cpu
     = moonbit_set_affinity_mask (Target_APPLE macos) (take_bit 4 0x13) intel_mac_4cpu
   \<and> moonbit_set_affinity_mask (Target_APPLE macos) 0x30 intel_mac_4cpu
     = (True, intel_mac_4cpu\<lparr>policy_requests := [4]\<rparr>)
   \<and> moonbit_set_affinity_mask (Target_APPLE macos) (take_bit 4 0x30) intel_mac_4cpu
     = (False, intel_mac_4cpu)
   \<and> moonbit_set_affinity_mask (Target_APPLE macos) 0x13 apple_silicon_8cpu
     = moonbit_set_affinity_mask (Target_APPLE macos) (take_bit 4 0x13) apple_silicon_8cpu
   \<and> moonbit_set_affinity_mask (Target_WIN32 (windows 64)) 0x13 windows_4cpu
     = (False, windows_4cpu)"
proof -
  have "\<not> bit (0x30 :: uint64_t) j" if "j < 4" for j
  proof -
    from that have "j = 0 \<or> j = 1 \<or> j = 2 \<or> j = 3" by auto
    then show ?thesis by auto
  qed
  then have low: "bit (0x30 :: uint64_t) 4 \<and> (\<forall>j<4. \<not> bit (0x30 :: uint64_t) j)"
    by simp
  have cut: "take_bit 4 (0x30 :: uint64_t) = 0" "take_bit 4 (0x13 :: uint64_t) \<noteq> 0"
    by (simp_all add: take_bit_eq_mod)
  have intel: "\<not> (fst (sysctlbyname macos ''hw.optional.arm64'' intel_mac_4cpu) = 0
           \<and> snd (sysctlbyname macos ''hw.optional.arm64'' intel_mac_4cpu) \<noteq> 0)"
    by (simp add: macos_def xnu_sysctlbyname_def intel_mac_4cpu_def)
  have silicon: "fst (sysctlbyname macos ''hw.optional.arm64'' apple_silicon_8cpu) = 0
           \<and> snd (sysctlbyname macos ''hw.optional.arm64'' apple_silicon_8cpu) \<noteq> 0"
    by (simp add: macos_def xnu_sysctlbyname_def apple_silicon_8cpu_def)
  have allowed: "cpus_allowed linux_4cpu \<subseteq> {..<4}"
    by (simp add: linux_4cpu_def)
  have nt: "process_affinity windows_4cpu AND NOT (mask 4) = 0
      \<and> take_bit 64 (0x13 :: uint64_t) AND NOT (mask 4) \<noteq> 0"
    by (simp add: windows_4cpu_def mask_eq_exp_minus_1)
  have request: "snd (thread_policy_set macos (int 4) intel_mac_4cpu)
      = intel_mac_4cpu\<lparr>policy_requests := [4]\<rparr>"
    by (simp add: macos_def xnu_thread_policy_set_def intel_mac_4cpu_def)
  show ?thesis
    using bits_beyond_cpu_count_amended [of "linux 1024" "0x13" linux_4cpu "windows 64"
        windows_4cpu linux_4cpu 4 1024 macos intel_mac_4cpu 0 windows_4cpu 64]
      bits_beyond_cpu_count_amended [of "linux 1024" "0x30" linux_4cpu "windows 64"
        windows_4cpu linux_4cpu 4 1024 macos intel_mac_4cpu 4 windows_4cpu 64]
      bits_beyond_cpu_count_amended [of "linux 1024" "0x13" linux_4cpu "windows 64"
        windows_4cpu linux_4cpu 4 1024 macos apple_silicon_8cpu 0 windows_4cpu 64]
      low cut intel silicon allowed nt request
    by simp
qed

text \<open>
  C6. On Linux, when \<^verbatim>\<open>sched_getaffinity\<close> succeeds, bit \<open>i\<close> of the result, for \<open>i\<close> in
  0..63, is set exactly when \<open>i\<close> is below \<^verbatim>\<open>CPU_SETSIZE\<close> and CPU \<open>i\<close> is in the set the call
  wrote; when the call fails the result is 0.
\<close>

theorem linux_query_converts_cpu_set:
  assumes "sched_getaffinity sys s = (rc, cpus)"
  shows "(rc = 0 \<longrightarrow> (\<forall>i<64. bit (moonbit_get_affinity_mask_linux sys s) i
                                \<longleftrightarrow> i < CPU_SETSIZE sys \<and> i \<in> cpus))
       \<and> (rc \<noteq> 0 \<longrightarrow> moonbit_get_affinity_mask_linux sys s = 0)"
  using assms by (simp add: moonbit_get_affinity_mask_linux_def bit_get_loop_linux)

theorem linux_query_converts_cpu_set_witness:
  "bit (moonbit_get_affinity_mask_linux (linux 1024) linux_4cpu) 2
   \<and> \<not> bit (moonbit_get_affinity_mask_linux (linux 1024) linux_4cpu) 5
   \<and> moonbit_get_affinity_mask_linux (linux 2) linux_4cpu = 0"
  using linux_query_converts_cpu_set [of "linux 1024" linux_4cpu 0 "{0, 1, 2, 3}"]
    linux_query_converts_cpu_set [of "linux 2" linux_4cpu "- 1" "{}"]
  by (simp add: linux_def kernel_sched_getaffinity_def linux_4cpu_def)

text \<open>
  C7. On a target that is none of Windows, Linux and macOS, the query returns 0 and
  binding returns false for every mask, without any OS call.
\<close>

theorem unsupported_platform:
  "moonbit_get_affinity_mask Target_other s = Some 0
   \<and> moonbit_set_affinity_mask Target_other msk s = (False, s)"
  by (simp add: moonbit_get_affinity_mask_other_def moonbit_set_affinity_mask_other_def)




text \<open>
  C9. Binding the same mask twice in a row gives the same boolean both times, on every
  backend: on Linux, on Windows (where a thread's affinity mask is never 0), on macOS
  (Apple Silicon or Intel, as the machine answers the sysctl) and on the fallback.
\<close>

theorem bind_twice_same_result:
  "fst (moonbit_set_affinity_mask (Target_linux (linux setsize)) msk
          (snd (moonbit_set_affinity_mask (Target_linux (linux setsize)) msk k)))
     = fst (moonbit_set_affinity_mask (Target_linux (linux setsize)) msk k)
   \<and> (thread_affinity w \<noteq> 0 \<longrightarrow>
        fst (moonbit_set_affinity_mask (Target_WIN32 (windows bits)) msk
              (snd (moonbit_set_affinity_mask (Target_WIN32 (windows bits)) msk w)))
         = fst (moonbit_set_affinity_mask (Target_WIN32 (windows bits)) msk w))
   \<and> fst (moonbit_set_affinity_mask (Target_APPLE macos) msk
          (snd (moonbit_set_affinity_mask (Target_APPLE macos) msk x)))
     = fst (moonbit_set_affinity_mask (Target_APPLE macos) msk x)
   \<and> fst (moonbit_set_affinity_mask Target_other msk
          (snd (moonbit_set_affinity_mask Target_other msk s)))
     = fst (moonbit_set_affinity_mask Target_other msk s)"
proof -
  have linux_part:
    "fst (moonbit_set_affinity_mask_linux (linux setsize) msk
          (snd (moonbit_set_affinity_mask_linux (linux setsize) msk k)))
     = fst (moonbit_set_affinity_mask_linux (linux setsize) msk k)"
    by (simp add: set_linux_on_kernel)
  have windows_part:
    "fst (moonbit_set_affinity_mask_win32 (windows bits) msk
              (snd (moonbit_set_affinity_mask_win32 (windows bits) msk w)))
         = fst (moonbit_set_affinity_mask_win32 (windows bits) msk w)"
    if "thread_affinity w \<noteq> 0"
    using that by (simp add: set_win32_on_nt)
  have apple_part:
    "fst (moonbit_set_affinity_mask_apple macos msk
          (snd (moonbit_set_affinity_mask_apple macos msk x)))
     = fst (moonbit_set_affinity_mask_apple macos msk x)"
  proof (cases "fst (sysctlbyname macos ''hw.optional.arm64'' x) = 0
         \<and> snd (sysctlbyname macos ''hw.optional.arm64'' x) \<noteq> 0")
    case True
    then show ?thesis by (simp add: set_apple_cases)
  next
    case False
    then have first: "moonbit_set_affinity_mask_apple macos msk x = set_loop_apple macos msk 0 x"
      by (auto simp: set_apple_cases)
    have "sysctlbyname macos ''hw.optional.arm64'' (snd (set_loop_apple macos msk 0 x))
        = sysctlbyname macos ''hw.optional.arm64'' x"
      by (simp add: arm64_reply_on_xnu xnu_keeps_machine)
    with False have second: "moonbit_set_affinity_mask_apple macos msk (snd (set_loop_apple macos msk 0 x))
        = set_loop_apple macos msk 0 (snd (set_loop_apple macos msk 0 x))"
      by (auto simp: set_apple_cases)
    show ?thesis
      by (simp add: first second set_loop_apple_fst)
  qed
  show ?thesis
    using linux_part windows_part apple_part
    by (simp add: moonbit_set_affinity_mask_other_def)
qed

theorem bind_twice_same_result_witness:
  "fst (moonbit_set_affinity_mask (Target_WIN32 (windows 64)) 3
         (snd (moonbit_set_affinity_mask (Target_WIN32 (windows 64)) 3 windows_4cpu)))
     = fst (moonbit_set_affinity_mask (Target_WIN32 (windows 64)) 3 windows_4cpu)
   \<and> fst (moonbit_set_affinity_mask (Target_linux (linux 1024)) 3
         (snd (moonbit_set_affinity_mask (Target_linux (linux 1024)) 3 linux_4cpu)))
     = fst (moonbit_set_affinity_mask (Target_linux (linux 1024)) 3 linux_4cpu)
   \<and> fst (moonbit_set_affinity_mask (Target_APPLE macos) 3
         (snd (moonbit_set_affinity_mask (Target_APPLE macos) 3 intel_mac_4cpu)))
     = fst (moonbit_set_affinity_mask (Target_APPLE macos) 3 intel_mac_4cpu)"
  using bind_twice_same_result [of 1024 3 linux_4cpu windows_4cpu 64 intel_mac_4cpu]
  by (simp add: windows_4cpu_def)

text \<open>
  C10. On macOS each call of the binder asks \<^verbatim>\<open>sysctlbyname\<close> for \<^verbatim>\<open>hw.optional.arm64\<close>. When
  that call succeeds with a nonzero value the result is true and nothing else happens.
  When it fails or reports 0 the Intel path runs: the mask 0 gives false and no request,
  a mask whose lowest set bit is \<open>i\<close> gives true after one \<^verbatim>\<open>thread_policy_set\<close> request
  tagged \<open>i\<close>; so the result is true exactly when the mask is not 0.
\<close>

theorem arm64_decided_by_sysctl:
  "(fst (sysctlbyname sys ''hw.optional.arm64'' s) = 0
      \<and> snd (sysctlbyname sys ''hw.optional.arm64'' s) \<noteq> 0
     \<longrightarrow> moonbit_set_affinity_mask_apple sys msk s = (True, s))
   \<and> (\<not> (fst (sysctlbyname sys ''hw.optional.arm64'' s) = 0
          \<and> snd (sysctlbyname sys ''hw.optional.arm64'' s) \<noteq> 0)
     \<longrightarrow> (fst (moonbit_set_affinity_mask_apple sys msk s) \<longleftrightarrow> msk \<noteq> 0)
        \<and> (msk = 0 \<longrightarrow> moonbit_set_affinity_mask_apple sys msk s = (False, s))
        \<and> (bit msk i \<and> (\<forall>j<i. \<not> bit msk j)
            \<longrightarrow> moonbit_set_affinity_mask_apple sys msk s
                = (True, snd (thread_policy_set sys (int i) s))))"
proof -
  have "moonbit_set_affinity_mask_apple sys msk s
      = (True, snd (thread_policy_set sys (int i) s))"
    if "\<not> (fst (sysctlbyname sys ''hw.optional.arm64'' s) = 0
          \<and> snd (sysctlbyname sys ''hw.optional.arm64'' s) \<noteq> 0)"
      and "bit msk i" and "\<forall>j<i. \<not> bit msk j"
    using that by (rule set_apple_intel_lowest)
  moreover have "moonbit_set_affinity_mask_apple sys msk s = (False, s)"
    if "\<not> (fst (sysctlbyname sys ''hw.optional.arm64'' s) = 0
          \<and> snd (sysctlbyname sys ''hw.optional.arm64'' s) \<noteq> 0)"
      and "msk = 0"
    using that set_apple_intel_zero [of sys s] by simp
  moreover have "(fst (sysctlbyname sys ''hw.optional.arm64'' s) = 0
      \<and> snd (sysctlbyname sys ''hw.optional.arm64'' s) \<noteq> 0
     \<longrightarrow> moonbit_set_affinity_mask_apple sys msk s = (True, s))
   \<and> (\<not> (fst (sysctlbyname sys ''hw.optional.arm64'' s) = 0
          \<and> snd (sysctlbyname sys ''hw.optional.arm64'' s) \<noteq> 0)
     \<longrightarrow> (fst (moonbit_set_affinity_mask_apple sys msk s) \<longleftrightarrow> msk \<noteq> 0))"
    by (simp add: set_apple_cases set_loop_apple_fst)
  ultimately show ?thesis by blast
qed

theorem arm64_decided_by_sysctl_witness:
  "moonbit_set_affinity_mask_apple macos 0 apple_silicon_8cpu = (True, apple_silicon_8cpu)
   \<and> fst (moonbit_set_affinity_mask_apple macos 0 intel_mac_4cpu) = False
   \<and> fst (moonbit_set_affinity_mask_apple macos 8 intel_mac_4cpu) = True
   \<and> fst (moonbit_set_affinity_mask_apple macos 8
            (apple_silicon_8cpu\<lparr>hw_optional_arm64 := Some 0\<rparr>)) = True
   \<and> fst (moonbit_set_affinity_mask_apple macos 0
            (apple_silicon_8cpu\<lparr>hw_optional_arm64 := Some 0\<rparr>)) = False
   \<and> moonbit_set_affinity_mask_apple macos 0 intel_mac_4cpu = (False, intel_mac_4cpu)
   \<and> moonbit_set_affinity_mask_apple macos 8 intel_mac_4cpu
       = (True, intel_mac_4cpu\<lparr>policy_requests := [3]\<rparr>)"
proof -
  have "\<not> bit (8 :: uint64_t) j" if "j < 3" for j
  proof -
    from that have "j = 0 \<or> j = 1 \<or> j = 2" by auto
    then show ?thesis by auto
  qed
  then have low: "bit (8 :: uint64_t) 3 \<and> (\<forall>j<3. \<not> bit (8 :: uint64_t) j)"
    by simp
  have request: "snd (thread_policy_set macos (int 3) intel_mac_4cpu)
      = intel_mac_4cpu\<lparr>policy_requests := [3]\<rparr>"
    by (simp add: macos_def xnu_thread_policy_set_def intel_mac_4cpu_def)
  have replies:
    "sysctlbyname macos ''hw.optional.arm64'' apple_silicon_8cpu = (0, 1)"
    "sysctlbyname macos ''hw.optional.arm64'' intel_mac_4cpu = (- 1, 0)"
    "sysctlbyname macos ''hw.optional.arm64'' (apple_silicon_8cpu\<lparr>hw_optional_arm64 := Some 0\<rparr>)
       = (0, 0)"
    by (simp_all add: macos_def xnu_sysctlbyname_def intel_mac_4cpu_def apple_silicon_8cpu_def)
  show ?thesis
    using arm64_decided_by_sysctl [of macos apple_silicon_8cpu 0 0]
      arm64_decided_by_sysctl [of macos intel_mac_4cpu 0 0]
      arm64_decided_by_sysctl [of macos intel_mac_4cpu 8 3]
      arm64_decided_by_sysctl [of macos "apple_silicon_8cpu\<lparr>hw_optional_arm64 := Some 0\<rparr>" 8 3]
      arm64_decided_by_sysctl [of macos "apple_silicon_8cpu\<lparr>hw_optional_arm64 := Some 0\<rparr>" 0 0]
      low request replies
    by simp
qed

end
